theory Spec2Isabelle
  imports Main
begin

section \<open>The tables of the reservation store\<close>

text \<open>
  The repository holds two variants of the server: \<^verbatim>\<open>src/unnamed/part_000\<close> (batch
  reserve over \<^verbatim>\<open>ipad_ids\<close>, whole-day return, history table) and \<^verbatim>\<open>src/server.ts\<close>
  (single-device reserve with a weekday guard, no return, no history). Both create the
  table \<^verbatim>\<open>reservations\<close> with \<^verbatim>\<open>UNIQUE(ipad_id, fecha, bloque_horario)\<close>.

  A table is the list of its rows in insertion order. The column \<^verbatim>\<open>timestamp\<close>
  (\<^verbatim>\<open>CURRENT_TIMESTAMP\<close>, the wall clock) is left out: no statement of the handlers
  modelled here reads it. The \<^verbatim>\<open>AUTOINCREMENT\<close> key is kept, with the counter SQLite
  stores in \<^verbatim>\<open>sqlite_sequence\<close>.
\<close>

record reservation =
  res_id :: nat
  ipad_id :: int
  fecha :: string
  bloque_horario :: string
  docente :: string
  curso :: string

record history_row =
  h_id :: nat
  h_docente :: string
  h_curso :: string
  h_ipads :: string
  h_fecha :: string
  h_bloque_horario :: string
  h_tipo :: string
  h_novedades :: string

record db =
  ipads :: "int list"
  reservations :: "reservation list"
  reservations_seq :: nat
  history :: "history_row list"
  history_seq :: nat

text \<open>
  The store a fresh process starts from: the pool \<^verbatim>\<open>ipads\<close> seeded with the ids 1 to 60
  (\<^verbatim>\<open>for (let i = 1; i <= 60; i++)\<close>), the other tables empty.
\<close>

definition empty_db :: db where
  "empty_db = \<lparr>ipads = [1..60], reservations = [], reservations_seq = 0,
                history = [], history_seq = 0\<rparr>"

text \<open>The slot of a row: the three columns of the \<^verbatim>\<open>UNIQUE\<close> constraint.\<close>

definition slot :: "reservation \<Rightarrow> int \<times> string \<times> string" where
  "slot r = (ipad_id r, fecha r, bloque_horario r)"

text \<open>
  The answers of the handlers, by HTTP status: 200, 400, 409, 404, 500. The last one
  is sent for an error of the store other than the unique violation; the tables of
  this model raise no such error.
\<close>

datatype response = Success | ValidationError | Conflict | NotFound | StorageFailure

datatype sql_error = SQLITE_CONSTRAINT_UNIQUE

section \<open>JavaScript values of the request bodies\<close>

text \<open>
  A body field that holds text is \<open>Some s\<close>, an absent one is \<open>None\<close>. \<^verbatim>\<open>!v\<close> is true
  of an absent field and of the empty string; \<^verbatim>\<open>v || d\<close> is \<open>d\<close> in exactly these cases.
\<close>

definition falsy :: "string option \<Rightarrow> bool" where
  "falsy v = (case v of None \<Rightarrow> True | Some s \<Rightarrow> s = [])"

definition or_default :: "string option \<Rightarrow> string \<Rightarrow> string" where
  "or_default v d = (case v of None \<Rightarrow> d | Some s \<Rightarrow> if s = [] then d else s)"


definition digit :: "nat \<Rightarrow> char" where
  "digit k = char_of (48 + k)"

fun show_nat :: "nat \<Rightarrow> string" where
  "show_nat n = (if n < 10 then [digit n] else show_nat (n div 10) @ [digit (n mod 10)])"

declare show_nat.simps [simp del]

definition show_int :: "int \<Rightarrow> string" where
  "show_int i = (if i < 0 then CHR ''-'' # show_nat (nat (- i)) else show_nat (nat i))"

fun join :: "string \<Rightarrow> string list \<Rightarrow> string" where
  "join sep [] = []"
| "join sep [x] = x"
| "join sep (x # y # ys) = x @ sep @ join sep (y # ys)"

text \<open>
  A \<^verbatim>\<open>Set<string>\<close> keeps its elements in insertion order, each once: \<^verbatim>\<open>add\<close> of a
  member changes nothing.
\<close>

definition set_add :: "string list \<Rightarrow> string \<Rightarrow> string list" where
  "set_add xs x = (if x \<in> set xs then xs else xs @ [x])"

text \<open>
  \<^verbatim>\<open>a < b\<close> on two strings compares code units from the left; a proper prefix is
  smaller. A \<open>char\<close> is one code unit here, which is exact on ASCII text.
\<close>

fun js_lt :: "string \<Rightarrow> string \<Rightarrow> bool" where
  "js_lt [] [] = False"
| "js_lt [] (y # ys) = True"
| "js_lt (x # xs) [] = False"
| "js_lt (x # xs) (y # ys) =
     (if x = y then js_lt xs ys else (of_char x :: nat) < of_char y)"

section \<open>POST /api/reserve, batch variant (part_000, lines 102 to 137)\<close>

record reserve_body =
  b_ipad_ids :: "int list option"
  b_fecha :: "string option"
  b_bloque_horario :: "string option"
  b_docente :: "string option"
  b_curso :: "string option"

text \<open>
  \<^verbatim>\<open>insertRes.run\<close>: the insert fails with \<^verbatim>\<open>SQLITE_CONSTRAINT_UNIQUE\<close> when a row with
  the same three key columns exists, and appends the row otherwise.
\<close>

definition insertRes ::
  "int \<Rightarrow> string \<Rightarrow> string \<Rightarrow> string \<Rightarrow> string \<Rightarrow> db \<Rightarrow> sql_error + db" where
  "insertRes i f b d c s =
     (if (i, f, b) \<in> set (map slot (reservations s)) then Inl SQLITE_CONSTRAINT_UNIQUE
      else Inr (s\<lparr>reservations := reservations s @
                    [\<lparr>res_id = Suc (reservations_seq s), ipad_id = i, fecha = f,
                      bloque_horario = b, docente = d, curso = c\<rparr>],
                  reservations_seq := Suc (reservations_seq s)\<rparr>))"

definition insertHistory ::
  "string \<Rightarrow> string \<Rightarrow> string \<Rightarrow> string \<Rightarrow> string \<Rightarrow> string \<Rightarrow> string \<Rightarrow> db \<Rightarrow> db" where
  "insertHistory d c ids f b tipo nov s =
     s\<lparr>history := history s @
          [\<lparr>h_id = Suc (history_seq s), h_docente = d, h_curso = c, h_ipads = ids,
            h_fecha = f, h_bloque_horario = b, h_tipo = tipo, h_novedades = nov\<rparr>],
       history_seq := Suc (history_seq s)\<rparr>"

text \<open>The \<^verbatim>\<open>for (const id of ids)\<close> loop of the transaction; the first failure ends it.\<close>

fun insert_all ::
  "int list \<Rightarrow> string \<Rightarrow> string \<Rightarrow> string \<Rightarrow> string \<Rightarrow> db \<Rightarrow> sql_error + db" where
  "insert_all [] f b d c s = Inr s"
| "insert_all (i # ids) f b d c s =
     (case insertRes i f b d c s of
        Inl e \<Rightarrow> Inl e
      | Inr s' \<Rightarrow> insert_all ids f b d c s')"

text \<open>The body of \<^verbatim>\<open>db.transaction\<close>: the inserts, then the one history row.\<close>

definition reserve_transaction ::
  "int list \<Rightarrow> string \<Rightarrow> string \<Rightarrow> string \<Rightarrow> string \<Rightarrow> db \<Rightarrow> sql_error + db" where
  "reserve_transaction ids f b d c s =
     (case insert_all ids f b d c s of
        Inl e \<Rightarrow> Inl e
      | Inr s' \<Rightarrow>
          Inr (insertHistory d c (join '', '' (map show_int ids)) f b ''RESERVA'' [] s'))"

text \<open>
  The handler. A transaction that throws is rolled back, so the store is the one the
  request found; the only error an insert of this model raises is the unique violation.
  Past the guard the three required fields hold text, which \<open>or_default\<close> reads;
  for \<^verbatim>\<open>curso\<close> it is the \<^verbatim>\<open>curso || ""\<close> of the source.
\<close>

definition api_reserve :: "reserve_body \<Rightarrow> db \<Rightarrow> response \<times> db" where
  "api_reserve body s =
     (case b_ipad_ids body of
        None \<Rightarrow> (ValidationError, s)
      | Some ids \<Rightarrow>
          if ids = [] \<or> falsy (b_fecha body) \<or> falsy (b_bloque_horario body)
               \<or> falsy (b_docente body)
          then (ValidationError, s)
          else
            (case reserve_transaction ids (or_default (b_fecha body) [])
                    (or_default (b_bloque_horario body) [])
                    (or_default (b_docente body) [])
                    (or_default (b_curso body) []) s of
               Inl SQLITE_CONSTRAINT_UNIQUE \<Rightarrow> (Conflict, s)
             | Inr s' \<Rightarrow> (Success, s')))"

section \<open>POST /api/return (part_000, lines 140 to 200)\<close>

record return_body =
  rb_ipad_ids :: "int list option"
  rb_fecha :: "string option"
  rb_docente :: "string option"
  rb_curso :: "string option"
  rb_novedades :: "string option"

text \<open>
  \<^verbatim>\<open>getBlocks.all(id, fecha)\<close> and \<^verbatim>\<open>remove.run(id, fecha)\<close>. The \<^verbatim>\<open>SELECT\<close> has no
  \<^verbatim>\<open>ORDER BY\<close>, so the order of its rows is the engine's; here it is the order of
  insertion, and the statements about the released blocks speak of their set only.
\<close>

definition getBlocks :: "int \<Rightarrow> string \<Rightarrow> db \<Rightarrow> string list" where
  "getBlocks i f s =
     map bloque_horario (filter (\<lambda>r. ipad_id r = i \<and> fecha r = f) (reservations s))"

definition remove :: "int \<Rightarrow> string \<Rightarrow> db \<Rightarrow> db" where
  "remove i f s =
     s\<lparr>reservations := filter (\<lambda>r. \<not> (ipad_id r = i \<and> fecha r = f)) (reservations s)\<rparr>"

text \<open>The loop over the ids, threading the set of released blocks and the store.\<close>

fun release_all :: "int list \<Rightarrow> string \<Rightarrow> string list \<Rightarrow> db \<Rightarrow> string list \<times> db" where
  "release_all [] f released s = (released, s)"
| "release_all (i # ids) f released s =
     (let rows = getBlocks i f s in
      if length rows > 0
      then release_all ids f (foldl set_add released rows) (remove i f s)
      else release_all ids f released s)"

definition return_transaction ::
  "int list \<Rightarrow> string \<Rightarrow> string option \<Rightarrow> string option \<Rightarrow> string option \<Rightarrow> db
     \<Rightarrow> bool \<times> db" where
  "return_transaction ids f d c nov s =
     (case release_all ids f [] s of
        (released, s') \<Rightarrow>
          if length released > 0
          then (True, insertHistory (or_default d ''N/A'') (or_default c ''N/A'')
                        (join '', '' (map show_int ids)) f (join '', '' released)
                        ''DEVOLUCION'' (or_default nov []) s')
          else (False, s'))"

text \<open>
  The handler; \<open>todayStr\<close> is the text \<^verbatim>\<open>new Date().toISOString().split('T')[0]\<close> gives
  when the request runs.
\<close>

definition api_return :: "string \<Rightarrow> return_body \<Rightarrow> db \<Rightarrow> response \<times> db" where
  "api_return todayStr body s =
     (case rb_ipad_ids body of
        None \<Rightarrow> (ValidationError, s)
      | Some ids \<Rightarrow>
          if ids = [] \<or> falsy (rb_fecha body) then (ValidationError, s)
          else if js_lt (or_default (rb_fecha body) []) todayStr then (ValidationError, s)
          else
            (case return_transaction ids (or_default (rb_fecha body) [])
                    (rb_docente body) (rb_curso body) (rb_novedades body) s of
               (result, s') \<Rightarrow> if result then (Success, s') else (NotFound, s')))"

section \<open>Calendar dates and their text\<close>

text \<open>
  The client sends \<^verbatim>\<open>fecha\<close> as \<^verbatim>\<open>YYYY-MM-DD\<close> (an \<^verbatim>\<open>input type="date"\<close>, initialised
  with \<^verbatim>\<open>toISOString().split('T')[0]\<close>), and the server computes \<^verbatim>\<open>todayStr\<close> the same
  way. \<open>iso_date\<close> is that text for the years 0 to 9999.
\<close>

record date =
  year :: nat
  month :: nat
  day :: nat

definition leap_year :: "nat \<Rightarrow> bool" where
  "leap_year y = (y mod 4 = 0 \<and> (y mod 100 \<noteq> 0 \<or> y mod 400 = 0))"

definition days_in_month :: "nat \<Rightarrow> nat \<Rightarrow> nat" where
  "days_in_month y m =
     (if m = 2 then (if leap_year y then 29 else 28)
      else if m = 4 \<or> m = 6 \<or> m = 9 \<or> m = 11 then 30 else 31)"

definition valid_date :: "date \<Rightarrow> bool" where
  "valid_date d =
     (year d < 10000 \<and> 1 \<le> month d \<and> month d \<le> 12 \<and>
      1 \<le> day d \<and> day d \<le> days_in_month (year d) (month d))"

definition date_before :: "date \<Rightarrow> date \<Rightarrow> bool" where
  "date_before a b =
     (year a < year b \<or>
      year a = year b \<and> (month a < month b \<or> month a = month b \<and> day a < day b))"

definition pad2 :: "nat \<Rightarrow> string" where
  "pad2 n = [digit (n div 10), digit (n mod 10)]"

definition iso_date :: "date \<Rightarrow> string" where
  "iso_date d =
     pad2 (year d div 100) @ pad2 (year d mod 100) @ ''-'' @ pad2 (month d) @ ''-''
       @ pad2 (day d)"

text \<open>Reading the text back: ten characters, digits around two hyphens.\<close>

definition is_digit :: "char \<Rightarrow> bool" where
  "is_digit c = (48 \<le> (of_char c :: nat) \<and> (of_char c :: nat) \<le> 57)"

definition digit_val :: "char \<Rightarrow> nat" where
  "digit_val c = of_char c - 48"

definition num2 :: "char \<Rightarrow> char \<Rightarrow> nat" where
  "num2 a b = 10 * digit_val a + digit_val b"

fun parse_iso :: "string \<Rightarrow> date option" where
  "parse_iso [y1, y2, y3, y4, h1, m1, m2, h2, d1, d2] =
     (if h1 = CHR ''-'' \<and> h2 = CHR ''-'' \<and> list_all is_digit [y1, y2, y3, y4, m1, m2, d1, d2]
      then Some \<lparr>year = 100 * num2 y1 y2 + num2 y3 y4, month = num2 m1 m2, day = num2 d1 d2\<rparr>
      else None)"
| "parse_iso _ = None"

text \<open>
  \<^verbatim>\<open>new Date(fecha).getUTCDay()\<close> on a date-only ISO text: the instant is midnight UTC of
  that day, its day number is ECMAScript's \<^verbatim>\<open>MakeDay\<close> (days since 1970-01-01, from
  \<^verbatim>\<open>DayFromYear\<close> and the days of the months before), and the weekday is
  \<^verbatim>\<open>(Day + 4) mod 7\<close> with 0 for Sunday. Node's parser takes a month from 1 to 12 and a day
  from 1 to 31, a day past the end of the month running into the next one. Text of any
  other shape (with a time part, with slashes, without the padding zeros) is read by
  the engine in ways that are not modelled: it is given \<open>None\<close> here (the \<^verbatim>\<open>NaN\<close> of
  an invalid date), and every statement below that depends on the weekday speaks of
  \<open>iso_date\<close> text only.
\<close>

definition DayFromYear :: "int \<Rightarrow> int" where
  "DayFromYear y =
     365 * (y - 1970) + (y - 1969) div 4 - (y - 1901) div 100 + (y - 1601) div 400"

definition days_before_month :: "nat \<Rightarrow> nat \<Rightarrow> int" where
  "days_before_month y m =
     int ([0, 31, 59, 90, 120, 151, 181, 212, 243, 273, 304, 334] ! (m - 1))
       + (if leap_year y \<and> 2 < m then 1 else 0)"

definition MakeDay :: "date \<Rightarrow> int" where
  "MakeDay d =
     DayFromYear (int (year d)) + days_before_month (year d) (month d) + int (day d) - 1"

definition WeekDay :: "date \<Rightarrow> nat" where
  "WeekDay d = nat ((MakeDay d + 4) mod 7)"

definition getUTCDay :: "string \<Rightarrow> nat option" where
  "getUTCDay txt =
     (case parse_iso txt of
        None \<Rightarrow> None
      | Some d \<Rightarrow>
          if 1 \<le> month d \<and> month d \<le> 12 \<and> 1 \<le> day d \<and> day d \<le> 31
          then Some (WeekDay d) else None)"

section \<open>POST /api/reserve, single-device variant (server.ts, lines 85 to 113)\<close>

record reserve1_body =
  s_ipad_id :: "int option"
  s_fecha :: "string option"
  s_bloque_horario :: "string option"
  s_docente :: "string option"
  s_curso :: "string option"

text \<open>
  \<^verbatim>\<open>!ipad_id\<close> is true of an absent id and of the number 0. The table \<^verbatim>\<open>history\<close> does
  not exist in this variant; the handler leaves those fields of the store alone.
\<close>

definition api_reserve_single :: "reserve1_body \<Rightarrow> db \<Rightarrow> response \<times> db" where
  "api_reserve_single body s =
     (if (case s_ipad_id body of None \<Rightarrow> True | Some i \<Rightarrow> i = 0)
           \<or> falsy (s_fecha body) \<or> falsy (s_bloque_horario body) \<or> falsy (s_docente body)
      then (ValidationError, s)
      else
        (let day = getUTCDay (or_default (s_fecha body) []) in
         if day = Some 0 \<or> day = Some 6 then (ValidationError, s)
         else
           (case insertRes (case s_ipad_id body of None \<Rightarrow> 0 | Some i \<Rightarrow> i)
                   (or_default (s_fecha body) [])
                   (or_default (s_bloque_horario body) [])
                   (or_default (s_docente body) [])
                   (or_default (s_curso body) []) s of
              Inl SQLITE_CONSTRAINT_UNIQUE \<Rightarrow> (Conflict, s)
            | Inr s' \<Rightarrow> (Success, s'))))"

section \<open>Sequences of requests\<close>

text \<open>A Return request comes with the \<^verbatim>\<open>todayStr\<close> of the moment it is served.\<close>

datatype request = Reserve reserve_body | Return string return_body

fun handle :: "request \<Rightarrow> db \<Rightarrow> response \<times> db" where
  "handle (Reserve body) s = api_reserve body s"
| "handle (Return todayStr body) s = api_return todayStr body s"

definition run :: "request list \<Rightarrow> db \<Rightarrow> db" where
  "run rs s = foldl (\<lambda>st r. snd (handle r st)) s rs"

definition run_single :: "reserve1_body list \<Rightarrow> db \<Rightarrow> db" where
  "run_single bs s = foldl (\<lambda>st b. snd (api_reserve_single b st)) s bs"

text \<open>The number of active rows of a slot.\<close>

definition active_count :: "int \<times> string \<times> string \<Rightarrow> db \<Rightarrow> nat" where
  "active_count k s = length (filter (\<lambda>r. slot r = k) (reservations s))"

section \<open>GET /api/stats (part_000, lines 223 to 266; server.ts, lines 140 to 183)\<close>

text \<open>
  SQLite's \<^verbatim>\<open>strftime(format, fecha)\<close> is a parameter \<open>sf\<close> of the model, \<open>None\<close> being
  \<^verbatim>\<open>NULL\<close>: a row is in the month when both comparisons of the \<^verbatim>\<open>WHERE\<close> clause are
  true. The query parameters \<^verbatim>\<open>month\<close> and \<^verbatim>\<open>year\<close> are taken as present text.
\<close>

definition padStart2 :: "string \<Rightarrow> string" where
  "padStart2 m = replicate (2 - length m) CHR ''0'' @ m"

definition in_month ::
  "(string \<Rightarrow> string \<Rightarrow> string option) \<Rightarrow> string \<Rightarrow> string \<Rightarrow> reservation \<Rightarrow> bool" where
  "in_month sf m y r = (sf ''%m'' (fecha r) = Some m \<and> sf ''%Y'' (fecha r) = Some y)"

definition month_rows ::
  "(string \<Rightarrow> string \<Rightarrow> string option) \<Rightarrow> string \<Rightarrow> string \<Rightarrow> db \<Rightarrow> reservation list" where
  "month_rows sf m y s = filter (in_month sf m y) (reservations s)"

text \<open>\<^verbatim>\<open>GROUP BY key\<close> with \<^verbatim>\<open>COUNT(*)\<close>: one row for each key, with its number of rows.\<close>

definition group_counts :: "(reservation \<Rightarrow> 'k) \<Rightarrow> reservation list \<Rightarrow> ('k \<times> nat) list" where
  "group_counts key rs =
     map (\<lambda>k. (k, length (filter (\<lambda>r. key r = k) rs))) (remdups (map key rs))"

text \<open>
  \<^verbatim>\<open>ORDER BY count DESC LIMIT 1\<close> names no second sort key, and SQL leaves the order of
  rows with equal keys to the engine. The model does not choose for it: \<open>top_groups\<close> are
  the groups that may come first, and \<open>limit1\<close> lists what \<^verbatim>\<open>.get()\<close> may return
  (\<open>None\<close> for \<^verbatim>\<open>undefined\<close>, when there is no row).
\<close>

definition top_groups :: "('k \<times> nat) list \<Rightarrow> ('k \<times> nat) list" where
  "top_groups gs = filter (\<lambda>g. \<forall>h\<in>set gs. snd h \<le> snd g) gs"

definition limit1 :: "'a list \<Rightarrow> 'a option list" where
  "limit1 xs = (if xs = [] then [None] else map Some xs)"

datatype json = JNum int | JStr string

record stats_response =
  totalReservas :: json
  ipadMasUsado :: json
  diaMasDemanda :: json
  bloqueMasReservado :: json

text \<open>
  The object passed to \<^verbatim>\<open>res.json\<close>; its key \<^verbatim>\<open>total\<close> is the field \<open>totalReservas\<close>
  here, after the variable it is read from. \<^verbatim>\<open>row?.col || "N/A"\<close> is \<^verbatim>\<open>"N/A"\<close> when there is
  no row, and also when the column is the number 0 or the empty string.
\<close>

definition stats_json ::
  "nat \<Rightarrow> (int \<times> nat) option \<Rightarrow> (string \<times> nat) option \<Rightarrow> (string \<times> nat) option
     \<Rightarrow> stats_response" where
  "stats_json n i d b =
     \<lparr>totalReservas = JNum (int n),
      ipadMasUsado =
        (case i of None \<Rightarrow> JStr ''N/A''
         | Some (k, c) \<Rightarrow> if k = 0 then JStr ''N/A'' else JNum k),
      diaMasDemanda =
        (case d of None \<Rightarrow> JStr ''N/A''
         | Some (f, c) \<Rightarrow> if f = [] then JStr ''N/A'' else JStr f),
      bloqueMasReservado =
        (case b of None \<Rightarrow> JStr ''N/A''
         | Some (k, c) \<Rightarrow> if k = [] then JStr ''N/A'' else JStr k)\<rparr>"

text \<open>The responses the handler may send for a store: one for each choice among ties.\<close>

definition api_stats ::
  "(string \<Rightarrow> string \<Rightarrow> string option) \<Rightarrow> string \<Rightarrow> string \<Rightarrow> db \<Rightarrow> stats_response list" where
  "api_stats sf month_q year_q s =
     (let m = padStart2 month_q; y = year_q; rows = month_rows sf m y s in
      concat (map (\<lambda>i. concat (map (\<lambda>d. map (\<lambda>b. stats_json (length rows) i d b)
          (limit1 (top_groups (group_counts bloque_horario rows))))
          (limit1 (top_groups (group_counts fecha rows)))))
          (limit1 (top_groups (group_counts ipad_id rows)))))"

text \<open>
  An instance of \<open>sf\<close> for evaluating examples: the two formats the handler uses, on
  \<^verbatim>\<open>YYYY-MM-DD\<close> text with a month from 1 to 12 and a day from 1 to 31. SQLite goes
  through the day number, so a day past the end of its month is read as a day of the
  next month (\<^verbatim>\<open>2025-02-30\<close> has the month \<^verbatim>\<open>03\<close>). The other time strings SQLite
  accepts are not covered; the instance is applied to \<^verbatim>\<open>YYYY-MM-DD\<close> text only.
\<close>

definition sqlite_normalise :: "date \<Rightarrow> date" where
  "sqlite_normalise d =
     (if day d \<le> days_in_month (year d) (month d) then d
      else d\<lparr>month := month d + 1, day := day d - days_in_month (year d) (month d)\<rparr>)"

definition iso_strftime :: "string \<Rightarrow> string \<Rightarrow> string option" where
  "iso_strftime fmt txt =
     (case parse_iso txt of
        None \<Rightarrow> None
      | Some d \<Rightarrow>
          if \<not> (1 \<le> month d \<and> month d \<le> 12 \<and> 1 \<le> day d \<and> day d \<le> 31) then None
          else if fmt = ''%m'' then Some (pad2 (month (sqlite_normalise d)))
          else if fmt = ''%Y''
            then Some (pad2 (year (sqlite_normalise d) div 100)
                       @ pad2 (year (sqlite_normalise d) mod 100))
          else None)"

section \<open>Notions the statements use\<close>


definition kept_rows :: "int list \<Rightarrow> string \<Rightarrow> db \<Rightarrow> reservation list" where
  "kept_rows ids f s =
     filter (\<lambda>r. \<not> (ipad_id r \<in> set ids \<and> fecha r = f)) (reservations s)"





text \<open>Example stores and requests, on Monday 2025-03-10.\<close>

definition ex_db4 :: db where
  "ex_db4 = empty_db
     \<lparr>reservations := [\<lparr>res_id = 1, ipad_id = 4, fecha = ''2025-03-10'',
         bloque_horario = ''1st'', docente = ''Luis'', curso = []\<rparr>],
      reservations_seq := 1\<rparr>"

definition ex_db7 :: db where
  "ex_db7 = empty_db
     \<lparr>reservations :=
        [\<lparr>res_id = 1, ipad_id = 7, fecha = ''2025-03-10'',
          bloque_horario = ''1st'', docente = ''Ana'', curso = []\<rparr>,
         \<lparr>res_id = 2, ipad_id = 7, fecha = ''2025-03-10'',
          bloque_horario = ''2nd'', docente = ''Ana'', curso = []\<rparr>],
      reservations_seq := 2\<rparr>"

definition ex_reserve345 :: reserve_body where
  "ex_reserve345 =
     \<lparr>b_ipad_ids = Some [3, 4, 5], b_fecha = Some ''2025-03-10'',
      b_bloque_horario = Some ''1st'', b_docente = Some ''Ana'', b_curso = None\<rparr>"

definition ex_return7 :: return_body where
  "ex_return7 =
     \<lparr>rb_ipad_ids = Some [7], rb_fecha = Some ''2025-03-10'', rb_docente = None,
      rb_curso = None, rb_novedades = None\<rparr>"

definition ex_return_past :: return_body where
  "ex_return_past =
     \<lparr>rb_ipad_ids = Some [7], rb_fecha = Some (iso_date \<lparr>year = 2025, month = 3, day = 9\<rparr>),
      rb_docente = None, rb_curso = None, rb_novedades = None\<rparr>"

definition ex_today :: date where
  "ex_today = \<lparr>year = 2025, month = 3, day = 10\<rparr>"

definition ex_yesterday :: date where
  "ex_yesterday = \<lparr>year = 2025, month = 3, day = 9\<rparr>"

definition ex_saturday :: date where
  "ex_saturday = \<lparr>year = 2025, month = 3, day = 8\<rparr>"

definition ex_reserve_sat :: reserve_body where
  "ex_reserve_sat =
     \<lparr>b_ipad_ids = Some [3], b_fecha = Some (iso_date ex_saturday),
      b_bloque_horario = Some ''1st'', b_docente = Some ''Ana'', b_curso = None\<rparr>"

definition ex_single_sat :: reserve1_body where
  "ex_single_sat =
     \<lparr>s_ipad_id = Some 3, s_fecha = Some (iso_date ex_saturday),
      s_bloque_horario = Some ''1st'', s_docente = Some ''Ana'', s_curso = None\<rparr>"

definition ex_single_mon :: "int \<Rightarrow> reserve1_body" where
  "ex_single_mon i =
     \<lparr>s_ipad_id = Some i, s_fecha = Some (iso_date ex_today),
      s_bloque_horario = Some ''1st'', s_docente = Some ''Ana'', s_curso = None\<rparr>"

definition ex_reserve999 :: reserve_body where
  "ex_reserve999 =
     \<lparr>b_ipad_ids = Some [999], b_fecha = Some ''2025-03-10'',
      b_bloque_horario = Some ''1st'', b_docente = Some ''Ana'', b_curso = None\<rparr>"

definition ex_requests :: "request list" where
  "ex_requests =
     [Reserve ex_reserve345, Reserve ex_reserve345, Return ''2025-03-10'' ex_return7,
      Reserve ex_reserve999]"

definition ex_singles :: "reserve1_body list" where
  "ex_singles = [ex_single_mon 3, ex_single_mon 3, ex_single_sat]"




text \<open>The ninth of March written without the zero of the month, in a row and in a Return.\<close>

definition ex_db_short :: db where
  "ex_db_short = empty_db
     \<lparr>reservations := [\<lparr>res_id = 1, ipad_id = 7, fecha = ''2025-3-09'',
         bloque_horario = ''1st'', docente = ''Ana'', curso = []\<rparr>],
      reservations_seq := 1\<rparr>"

definition ex_return_short :: return_body where
  "ex_return_short =
     \<lparr>rb_ipad_ids = Some [7], rb_fecha = Some ''2025-3-09'', rb_docente = None,
      rb_curso = None, rb_novedades = None\<rparr>"

definition ex_single_sat999 :: reserve1_body where
  "ex_single_sat999 =
     \<lparr>s_ipad_id = Some 999, s_fecha = Some (iso_date ex_saturday),
      s_bloque_horario = Some ''1st'', s_docente = Some ''Ana'', s_curso = None\<rparr>"

section \<open>Inserting rows\<close>

lemma insertRes_Inr:
  "insertRes i f b d c s = Inr s' \<Longrightarrow>
     (i, f, b) \<notin> set (map slot (reservations s)) \<and>
     set (map slot (reservations s')) = insert (i, f, b) (set (map slot (reservations s))) \<and>
     history s' = history s \<and> history_seq s' = history_seq s \<and> ipads s' = ipads s"
  by (auto simp: insertRes_def slot_def split: if_splits)

lemma insertRes_free:
  "(i, f, b) \<notin> set (map slot (reservations s)) \<Longrightarrow> \<exists>s'. insertRes i f b d c s = Inr s'"
  by (simp add: insertRes_def)

lemma insertRes_distinct:
  "insertRes i f b d c s = Inr s' \<Longrightarrow> distinct (map slot (reservations s)) \<Longrightarrow>
     distinct (map slot (reservations s'))"
  by (auto simp: insertRes_def slot_def split: if_splits)

lemma insertHistory_fields:
  "reservations (insertHistory d c ids f b t n s) = reservations s"
  "reservations_seq (insertHistory d c ids f b t n s) = reservations_seq s"
  "ipads (insertHistory d c ids f b t n s) = ipads s"
  by (simp_all add: insertHistory_def)

text \<open>One taken slot in the batch makes the loop fail, wherever it stands in the list.\<close>

lemma insert_all_taken:
  "\<exists>i\<in>set ids. (i, f, b) \<in> set (map slot (reservations s)) \<Longrightarrow>
     insert_all ids f b d c s = Inl SQLITE_CONSTRAINT_UNIQUE"
proof (induction ids arbitrary: s)
  case Nil
  then show ?case by simp
next
  case (Cons i ids)
  show ?case
  proof (cases "insertRes i f b d c s")
    case (Inl e)
    then show ?thesis by (cases e) simp
  next
    case (Inr s')
    from insertRes_Inr [OF Inr] Cons.prems
    have "\<exists>j\<in>set ids. (j, f, b) \<in> set (map slot (reservations s'))"
      by auto
    from Cons.IH [OF this] Inr show ?thesis by simp
  qed
qed

lemma insert_all_Inr:
  "insert_all ids f b d c s = Inr s' \<Longrightarrow>
     distinct ids \<and> (\<forall>i\<in>set ids. (i, f, b) \<notin> set (map slot (reservations s))) \<and>
     set (map slot (reservations s')) =
       (\<lambda>i. (i, f, b)) ` set ids \<union> set (map slot (reservations s)) \<and>
     history s' = history s \<and> history_seq s' = history_seq s \<and> ipads s' = ipads s"
proof (induction ids arbitrary: s)
  case Nil
  then show ?case by simp
next
  case (Cons i ids)
  from Cons.prems obtain s1 where s1: "insertRes i f b d c s = Inr s1"
    and rest: "insert_all ids f b d c s1 = Inr s'"
    by (auto split: sum.splits)
  note a = insertRes_Inr [OF s1]
  note b = Cons.IH [OF rest]
  from a b show ?case by auto
qed

lemma insert_all_free:
  "distinct ids \<Longrightarrow> \<forall>i\<in>set ids. (i, f, b) \<notin> set (map slot (reservations s)) \<Longrightarrow>
     \<exists>s'. insert_all ids f b d c s = Inr s'"
proof (induction ids arbitrary: s)
  case Nil
  then show ?case by simp
next
  case (Cons i ids)
  from Cons.prems obtain s1 where s1: "insertRes i f b d c s = Inr s1"
    using insertRes_free [of i f b s d c] by auto
  from insertRes_Inr [OF s1] Cons.prems
  have "\<forall>j\<in>set ids. (j, f, b) \<notin> set (map slot (reservations s1))" by auto
  with Cons.IH [of s1] Cons.prems obtain s' where "insert_all ids f b d c s1 = Inr s'"
    by auto
  with s1 show ?case by simp
qed

lemma insert_all_distinct:
  "insert_all ids f b d c s = Inr s' \<Longrightarrow> distinct (map slot (reservations s)) \<Longrightarrow>
     distinct (map slot (reservations s'))"
proof (induction ids arbitrary: s)
  case Nil
  then show ?case by simp
next
  case (Cons i ids)
  from Cons.prems(1) obtain s1 where s1: "insertRes i f b d c s = Inr s1"
    and rest: "insert_all ids f b d c s1 = Inr s'"
    by (auto split: sum.splits)
  from insertRes_distinct [OF s1 Cons.prems(2)] show ?case
    by (rule Cons.IH [OF rest])
qed

section \<open>The batch reserve handler\<close>

lemma reserve_transaction_taken:
  assumes "i \<in> set ids" and "(i, f, b) \<in> set (map slot (reservations s))"
  shows "reserve_transaction ids f b d c s = Inl SQLITE_CONSTRAINT_UNIQUE"
proof -
  from assms have "\<exists>j\<in>set ids. (j, f, b) \<in> set (map slot (reservations s))"
    by blast
  then have "insert_all ids f b d c s = Inl SQLITE_CONSTRAINT_UNIQUE"
    by (rule insert_all_taken)
  then show ?thesis by (simp add: reserve_transaction_def)
qed

lemma api_reserve_Success:
  assumes "api_reserve body s = (Success, s')"
  shows "\<exists>ids f b. b_ipad_ids body = Some ids \<and> ids \<noteq> [] \<and> b_fecha body = Some f \<and> f \<noteq> []
           \<and> b_bloque_horario body = Some b \<and> b \<noteq> [] \<and> \<not> falsy (b_docente body)
           \<and> distinct ids \<and> (\<forall>i\<in>set ids. (i, f, b) \<notin> set (map slot (reservations s)))
           \<and> set (map slot (reservations s')) =
               (\<lambda>i. (i, f, b)) ` set ids \<union> set (map slot (reservations s))
           \<and> (distinct (map slot (reservations s)) \<longrightarrow> distinct (map slot (reservations s')))"
proof -
  from assms obtain ids where ids: "b_ipad_ids body = Some ids"
    by (auto simp: api_reserve_def split: option.splits)
  from assms ids have v: "ids \<noteq> []" "\<not> falsy (b_fecha body)" "\<not> falsy (b_bloque_horario body)"
      "\<not> falsy (b_docente body)"
    by (auto simp: api_reserve_def split: if_splits)
  from v obtain f b where f: "b_fecha body = Some f" "f \<noteq> []"
    and b: "b_bloque_horario body = Some b" "b \<noteq> []"
    by (auto simp: falsy_def split: option.splits)
  from assms ids v f b obtain s1 where
    s1: "insert_all ids f b (or_default (b_docente body) []) (or_default (b_curso body) []) s = Inr s1"
    and s': "s' = insertHistory (or_default (b_docente body) []) (or_default (b_curso body) [])
                    (join '', '' (map show_int ids)) f b ''RESERVA'' [] s1"
    by (auto simp: api_reserve_def reserve_transaction_def or_default_def
             split: sum.splits sql_error.splits)
  from insert_all_Inr [OF s1] insert_all_distinct [OF s1] s' ids v f b show ?thesis
    by (simp add: insertHistory_fields)
qed

lemma api_reserve_free:
  assumes "b_ipad_ids body = Some ids" and "ids \<noteq> []" and "distinct ids"
    and "b_fecha body = Some f" and "f \<noteq> []"
    and "b_bloque_horario body = Some b" and "b \<noteq> []"
    and "\<not> falsy (b_docente body)"
    and "\<forall>i\<in>set ids. (i, f, b) \<notin> set (map slot (reservations s))"
  shows "fst (api_reserve body s) = Success"
proof -
  from insert_all_free [OF assms(3,9)] obtain s1 where
    "insert_all ids f b (or_default (b_docente body) []) (or_default (b_curso body) []) s = Inr s1"
    by blast
  with assms(1,2,4-8) show ?thesis
    by (simp add: api_reserve_def reserve_transaction_def falsy_def or_default_def)
qed

lemma api_reserve_not_Success:
  "fst (api_reserve body s) \<noteq> Success \<Longrightarrow> snd (api_reserve body s) = s"
  by (auto simp: api_reserve_def split: option.splits if_splits sum.splits sql_error.splits)

text \<open>
  C2. A Reserve batch that passes the field checks and names a device already holding
  a row for that date and block is answered with Conflict, and the store returned is
  the store the request found: no row of the batch is kept and no history row is added.
\<close>

theorem reserve_conflict_atomic:
  assumes "b_ipad_ids body = Some ids"
    and "b_fecha body = Some f" and "f \<noteq> []"
    and "b_bloque_horario body = Some b" and "b \<noteq> []"
    and "\<not> falsy (b_docente body)"
    and "i \<in> set ids"
    and "(i, f, b) \<in> set (map slot (reservations s))"
  shows "api_reserve body s = (Conflict, s)"
proof -
  have tx: "reserve_transaction ids f b (or_default (b_docente body) [])
      (or_default (b_curso body) []) s = Inl SQLITE_CONSTRAINT_UNIQUE"
    using assms(7,8) by (rule reserve_transaction_taken)
  from assms(7) have "ids \<noteq> []" by auto
  with assms(1-6) have "api_reserve body s =
      (case reserve_transaction ids f b (or_default (b_docente body) [])
              (or_default (b_curso body) []) s of
         Inl SQLITE_CONSTRAINT_UNIQUE \<Rightarrow> (Conflict, s)
       | Inr s' \<Rightarrow> (Success, s'))"
    by (simp add: api_reserve_def falsy_def or_default_def)
  with tx show ?thesis by simp
qed

theorem reserve_conflict_atomic_witness:
  "api_reserve ex_reserve345 ex_db4 = (Conflict, ex_db4)"
  by (rule reserve_conflict_atomic
        [where ids = "[3, 4, 5]" and f = "''2025-03-10''" and b = "''1st''" and i = 4])
     (simp_all add: ex_reserve345_def ex_db4_def empty_db_def falsy_def slot_def)

text \<open>
  C7. When a Reserve payload succeeds, the same payload submitted again on the
  resulting store is answered with Conflict and leaves that store as it is; and a
  payload answered with Conflict has changed nothing, so submitting it again gives
  Conflict again on the same store.
\<close>

theorem reserve_retry_idempotent:
  "(api_reserve body s = (Success, s') \<longrightarrow> api_reserve body s' = (Conflict, s')) \<and>
   (api_reserve body s = (Conflict, s') \<longrightarrow> s' = s \<and> api_reserve body s' = (Conflict, s'))"
proof (intro conjI impI)
  assume ok: "api_reserve body s = (Success, s')"
  from api_reserve_Success [OF ok] obtain ids f b where
    h: "b_ipad_ids body = Some ids" "ids \<noteq> []" "b_fecha body = Some f" "f \<noteq> []"
       "b_bloque_horario body = Some b" "b \<noteq> []" "\<not> falsy (b_docente body)"
       "set (map slot (reservations s')) =
          (\<lambda>i. (i, f, b)) ` set ids \<union> set (map slot (reservations s))"
    by blast
  from h(2) obtain i where i: "i \<in> set ids" by (cases ids) auto
  with h(8) have "(i, f, b) \<in> set (map slot (reservations s'))" by blast
  with i have "reserve_transaction ids f b (or_default (b_docente body) [])
      (or_default (b_curso body) []) s' = Inl SQLITE_CONSTRAINT_UNIQUE"
    by (rule reserve_transaction_taken)
  with h(1-7) show "api_reserve body s' = (Conflict, s')"
    by (simp add: api_reserve_def falsy_def or_default_def)
next
  assume c: "api_reserve body s = (Conflict, s')"
  then show "s' = s"
    by (auto simp: api_reserve_def split: option.splits if_splits sum.splits sql_error.splits)
  with c show "api_reserve body s' = (Conflict, s')" by simp
qed

theorem reserve_retry_idempotent_witness:
  "fst (api_reserve ex_reserve345 empty_db) = Success \<and>
   api_reserve ex_reserve345 (snd (api_reserve ex_reserve345 empty_db)) =
     (Conflict, snd (api_reserve ex_reserve345 empty_db)) \<and>
   api_reserve ex_reserve345 ex_db4 = (Conflict, ex_db4)"
proof -
  have a: "fst (api_reserve ex_reserve345 empty_db) = Success"
    by (rule api_reserve_free [where ids = "[3, 4, 5]" and f = "''2025-03-10''" and b = "''1st''"])
       (simp_all add: ex_reserve345_def empty_db_def falsy_def)
  then have a': "api_reserve ex_reserve345 empty_db =
      (Success, snd (api_reserve ex_reserve345 empty_db))"
    by (simp add: prod_eq_iff)
  have "reserve_transaction [3, 4, 5] ''2025-03-10'' ''1st'' ''Ana'' [] ex_db4 =
      Inl SQLITE_CONSTRAINT_UNIQUE"
    by (rule reserve_transaction_taken [where i = 4])
       (simp_all add: ex_db4_def empty_db_def slot_def)
  then have c: "api_reserve ex_reserve345 ex_db4 = (Conflict, ex_db4)"
    by (simp add: api_reserve_def ex_reserve345_def falsy_def or_default_def)
  from a a' c
    reserve_retry_idempotent [of ex_reserve345 empty_db "snd (api_reserve ex_reserve345 empty_db)"]
    reserve_retry_idempotent [of ex_reserve345 ex_db4 ex_db4]
  show ?thesis by simp
qed

section \<open>Joined columns read back\<close>

lemma of_char_digit: "k < 10 \<Longrightarrow> (of_char (digit k) :: nat) = 48 + k"
  by (simp add: digit_def)

lemma digit_val_digit: "k < 10 \<Longrightarrow> digit_val (digit k) = k"
  by (simp add: digit_val_def of_char_digit)














section \<open>Releasing rows\<close>



lemma remove_noop: "getBlocks i f s = [] \<Longrightarrow> remove i f s = s"
proof -
  assume "getBlocks i f s = []"
  then have "\<forall>r\<in>set (reservations s). \<not> (ipad_id r = i \<and> fecha r = f)"
    by (auto simp: getBlocks_def filter_empty_conv)
  then have "filter (\<lambda>r. \<not> (ipad_id r = i \<and> fecha r = f)) (reservations s) = reservations s"
    by (simp add: filter_id_conv)
  then show ?thesis by (simp add: remove_def)
qed

text \<open>
  A device without rows on the date is skipped by the loop; deleting its (no) rows
  would give the same store, so both branches are one step.
\<close>

lemma release_all_Cons:
  "release_all (i # ids) f released s =
     release_all ids f (foldl set_add released (getBlocks i f s)) (remove i f s)"
  by (cases "getBlocks i f s = []") (simp_all add: remove_noop Let_def)

lemma release_all_store:
  "snd (release_all ids f released s) = s\<lparr>reservations := kept_rows ids f s\<rparr>"
proof (induction ids arbitrary: released s)
  case Nil
  show ?case by (simp add: kept_rows_def)
next
  case (Cons i ids)
  have "kept_rows ids f (remove i f s) = kept_rows (i # ids) f s"
    unfolding kept_rows_def remove_def by (auto intro: filter_cong)
  then show ?case
    by (simp only: release_all_Cons Cons.IH) (simp add: remove_def)
qed



section \<open>The return handler\<close>


lemma api_return_rows:
  "\<exists>P. reservations (snd (api_return todayStr body s)) = filter P (reservations s)"
proof (cases "fst (api_return todayStr body s) = ValidationError")
  case True
  then have "snd (api_return todayStr body s) = s"
    by (auto simp: api_return_def split: option.splits if_splits prod.splits)
  then have "reservations (snd (api_return todayStr body s)) = filter (\<lambda>r. True) (reservations s)"
    by simp
  then show ?thesis by blast
next
  case False
  then obtain ids where ids: "rb_ipad_ids body = Some ids"
    by (auto simp: api_return_def split: option.splits)
  have "reservations (snd (api_return todayStr body s)) =
      reservations (snd (release_all ids (or_default (rb_fecha body) []) [] s))"
    using False ids
    by (auto simp: api_return_def return_transaction_def insertHistory_fields
             split: if_splits prod.splits)
  then have "reservations (snd (api_return todayStr body s)) =
      kept_rows ids (or_default (rb_fecha body) []) s"
    by (simp add: release_all_store)
  then show ?thesis unfolding kept_rows_def by blast
qed






section \<open>Dates as text\<close>

lemma digit_eq_iff: "a < 10 \<Longrightarrow> b < 10 \<Longrightarrow> digit a = digit b \<longleftrightarrow> a = b"
proof
  assume "a < 10" "b < 10" "digit a = digit b"
  then have "(of_char (digit a) :: nat) = of_char (digit b)" by simp
  with \<open>a < 10\<close> \<open>b < 10\<close> show "a = b" by (simp add: of_char_digit)
qed simp

lemma js_lt_digit:
  "a < 10 \<Longrightarrow> b < 10 \<Longrightarrow>
     js_lt (digit a # xs) (digit b # ys) = (a < b \<or> a = b \<and> js_lt xs ys)"
  by (auto simp: digit_eq_iff of_char_digit)

text \<open>Quotient and remainder order the numbers as the pair does.\<close>

lemma lex_div_mod_eq: "(a div k = b div k \<and> a mod k = b mod k) = (a = (b::nat))"
proof
  assume h: "a div k = b div k \<and> a mod k = b mod k"
  have "a = k * (a div k) + a mod k" by simp
  also have "\<dots> = k * (b div k) + b mod k" using h by simp
  also have "\<dots> = b" by simp
  finally show "a = b" .
qed simp

lemma lex_div_mod_lt:
  "(a div k < b div k \<or> a div k = b div k \<and> a mod k < b mod k) = (a < (b::nat))"
proof -
  have A: "k * (a div k) + a mod k = a" by (rule mult_div_mod_eq)
  have B: "k * (b div k) + b mod k = b" by (rule mult_div_mod_eq)
  show ?thesis
  proof
    assume h: "a div k < b div k \<or> a div k = b div k \<and> a mod k < b mod k"
    show "a < b"
    proof (rule ccontr)
      assume "\<not> a < b"
      then have ba: "b \<le> a" by simp
      then have le: "b div k \<le> a div k" by (rule div_le_mono)
      with h have e: "a div k = b div k" and m: "a mod k < b mod k" by auto
      from e have "k * (a div k) = k * (b div k)" by (rule arg_cong)
      with A B m ba show False by linarith
    qed
  next
    assume ab: "a < b"
    then have le: "a div k \<le> b div k" by (simp add: div_le_mono)
    show "a div k < b div k \<or> a div k = b div k \<and> a mod k < b mod k"
    proof (cases "a div k = b div k")
      case True
      then have "k * (a div k) = k * (b div k)" by (rule arg_cong)
      with A B ab have "a mod k < b mod k" by linarith
      with True show ?thesis by simp
    next
      case False
      with le show ?thesis by simp
    qed
  qed
qed

lemma js_lt_pad2:
  assumes "a < 100" and "b < 100"
  shows "js_lt (pad2 a @ xs) (pad2 b @ ys) = (a < b \<or> a = b \<and> js_lt xs ys)"
proof -
  have d: "a div 10 < 10" "b div 10 < 10" "a mod 10 < 10" "b mod 10 < 10"
    using assms by simp_all
  have "js_lt (pad2 a @ xs) (pad2 b @ ys) =
      (a div 10 < b div 10 \<or> a div 10 = b div 10 \<and>
         (a mod 10 < b mod 10 \<or> a mod 10 = b mod 10 \<and> js_lt xs ys))"
    by (simp only: pad2_def append.simps js_lt_digit [OF d(1,2)] js_lt_digit [OF d(3,4)])
  also have "\<dots> = ((a div 10 < b div 10 \<or> a div 10 = b div 10 \<and> a mod 10 < b mod 10)
       \<or> (a div 10 = b div 10 \<and> a mod 10 = b mod 10) \<and> js_lt xs ys)"
    by blast
  also have "\<dots> = (a < b \<or> a = b \<and> js_lt xs ys)"
    by (simp only: lex_div_mod_lt lex_div_mod_eq)
  finally show ?thesis .
qed

lemma js_lt_hyphen: "js_lt (''-'' @ xs) (''-'' @ ys) = js_lt xs ys"
  by simp

lemma js_lt_pad2_end:
  assumes "a < 100" and "b < 100"
  shows "js_lt (pad2 a) (pad2 b) = (a < b)"
  using js_lt_pad2 [OF assms, of "[]" "[]"] by simp

text \<open>On the text of two dates, the comparison of the handler is the order of the calendar.\<close>

lemma js_lt_iso_date:
  assumes "year a < 10000" "month a < 100" "day a < 100"
    and "year b < 10000" "month b < 100" "day b < 100"
  shows "js_lt (iso_date a) (iso_date b) = date_before a b"
proof -
  have y: "year a div 100 < 100" "year b div 100 < 100"
    "year a mod 100 < 100" "year b mod 100 < 100"
    using assms by simp_all
  have "js_lt (iso_date a) (iso_date b) =
     (year a div 100 < year b div 100 \<or> year a div 100 = year b div 100 \<and>
       (year a mod 100 < year b mod 100 \<or> year a mod 100 = year b mod 100 \<and>
         (month a < month b \<or> month a = month b \<and> day a < day b)))"
    unfolding iso_date_def
    by (simp only: js_lt_pad2 [OF y(1,2)] js_lt_pad2 [OF y(3,4)] js_lt_hyphen
          js_lt_pad2 [OF assms(2,5)] js_lt_pad2_end [OF assms(3,6)])
  also have "\<dots> =
     ((year a div 100 < year b div 100 \<or> year a div 100 = year b div 100 \<and>
         year a mod 100 < year b mod 100)
      \<or> (year a div 100 = year b div 100 \<and> year a mod 100 = year b mod 100) \<and>
         (month a < month b \<or> month a = month b \<and> day a < day b))"
    by blast
  also have "\<dots> = date_before a b"
    unfolding date_before_def by (simp only: lex_div_mod_lt lex_div_mod_eq)
  finally show ?thesis .
qed

lemma valid_date_bounds:
  "valid_date d \<Longrightarrow>
     year d < 10000 \<and> month d < 100 \<and> day d < 100 \<and>
     1 \<le> month d \<and> month d \<le> 12 \<and> 1 \<le> day d \<and> day d \<le> 31"
  by (auto simp: valid_date_def days_in_month_def split: if_splits)

lemma is_digit_digit: "k < 10 \<Longrightarrow> is_digit (digit k)"
  by (simp add: is_digit_def of_char_digit)

lemma num2_pad: "n < 100 \<Longrightarrow> num2 (digit (n div 10)) (digit (n mod 10)) = n"
  by (simp add: num2_def digit_val_digit)

lemma parse_iso_iso_date:
  assumes "year d < 10000" "month d < 100" "day d < 100"
  shows "parse_iso (iso_date d) = Some d"
proof -
  have y: "year d div 100 < 100" "year d mod 100 < 100" using assms by simp_all
  have dg: "is_digit (digit (year d div 100 div 10))" "is_digit (digit (year d div 100 mod 10))"
     "is_digit (digit (year d mod 100 div 10))" "is_digit (digit (year d mod 100 mod 10))"
     "is_digit (digit (month d div 10))" "is_digit (digit (month d mod 10))"
     "is_digit (digit (day d div 10))" "is_digit (digit (day d mod 10))"
    using assms by (simp_all add: is_digit_digit)
  have n: "num2 (digit (year d div 100 div 10)) (digit (year d div 100 mod 10)) = year d div 100"
     "num2 (digit (year d mod 100 div 10)) (digit (year d mod 100 mod 10)) = year d mod 100"
     "num2 (digit (month d div 10)) (digit (month d mod 10)) = month d"
     "num2 (digit (day d div 10)) (digit (day d mod 10)) = day d"
    using assms y by (simp_all only: num2_pad)
  have "100 * (year d div 100) + year d mod 100 = year d" by (rule mult_div_mod_eq)
  then show ?thesis
    by (simp add: iso_date_def pad2_def n dg)
qed

lemma getUTCDay_iso_date: "valid_date d \<Longrightarrow> getUTCDay (iso_date d) = Some (WeekDay d)"
  using valid_date_bounds [of d] by (simp add: getUTCDay_def parse_iso_iso_date)

lemma WeekDay_le: "WeekDay d \<le> 6"
proof -
  have "(MakeDay d + 4) mod 7 < 7" by (rule pos_mod_bound) simp
  then show ?thesis by (simp add: WeekDay_def)
qed

lemma iso_date_nonempty: "iso_date d \<noteq> []"
  by (simp add: iso_date_def pad2_def)

text \<open>The examples: the text of the three days, and their weekdays.\<close>

lemma ex_dates_text:
  "iso_date ex_saturday = ''2025-03-08''"
  "iso_date ex_yesterday = ''2025-03-09''"
  "iso_date ex_today = ''2025-03-10''"
  by code_simp+

lemma ex_dates_valid: "valid_date ex_saturday" "valid_date ex_yesterday" "valid_date ex_today"
  by (simp_all add: valid_date_def days_in_month_def ex_saturday_def ex_yesterday_def
        ex_today_def)

lemma ex_dates_weekday:
  "WeekDay ex_saturday = 6" "WeekDay ex_yesterday = 0" "WeekDay ex_today = 1"
  by (simp_all add: WeekDay_def MakeDay_def DayFromYear_def days_before_month_def
        leap_year_def ex_saturday_def ex_yesterday_def ex_today_def)

text \<open>
  C4, as the code has it. The guard compares the text of the date with \<open>todayStr\<close>.
  A Return whose date is a day of the calendar written as \<^verbatim>\<open>YYYY-MM-DD\<close> and before
  today's is answered with ValidationError whatever the store holds, and the store
  returned is the store it found.
\<close>

theorem return_past_date_rejected:
  assumes "valid_date d" and "valid_date today" and "date_before d today"
    and "rb_fecha body = Some (iso_date d)"
  shows "api_return (iso_date today) body s = (ValidationError, s)"
proof -
  from valid_date_bounds [OF assms(1)] valid_date_bounds [OF assms(2)] assms(3)
  have "js_lt (iso_date d) (iso_date today)"
    by (simp add: js_lt_iso_date)
  with assms(4) iso_date_nonempty [of d] show ?thesis
    by (auto simp: api_return_def or_default_def falsy_def split: option.splits)
qed

theorem return_past_date_rejected_witness:
  "valid_date ex_yesterday \<and> valid_date ex_today \<and> date_before ex_yesterday ex_today \<and>
   api_return (iso_date ex_today) ex_return_past ex_db7 = (ValidationError, ex_db7)"
proof -
  have b: "date_before ex_yesterday ex_today"
    by (simp add: date_before_def ex_yesterday_def ex_today_def)
  have f: "rb_fecha ex_return_past = Some (iso_date ex_yesterday)"
    by (simp add: ex_return_past_def ex_yesterday_def)
  from return_past_date_rejected [OF ex_dates_valid(2,3) b f, of ex_db7] ex_dates_valid b
  show ?thesis by simp
qed

text \<open>
  C4 as written fails for a past day in another spelling: on Monday 2025-03-10 the
  text \<^verbatim>\<open>2025-3-09\<close> is not smaller than \<^verbatim>\<open>2025-03-10\<close> (its sixth character is
  \<^verbatim>\<open>3\<close> against \<^verbatim>\<open>0\<close>), the guard lets the Return pass, and the row of that day is
  deleted.
\<close>

theorem return_past_date_other_spelling:
  "iso_date ex_today = ''2025-03-10'' \<and>
   \<not> js_lt ''2025-3-09'' (iso_date ex_today) \<and>
   fst (api_return (iso_date ex_today) ex_return_short ex_db_short) = Success \<and>
   reservations ex_db_short \<noteq> [] \<and>
   reservations (snd (api_return (iso_date ex_today) ex_return_short ex_db_short)) = []"
  by code_simp

section \<open>The single-device reserve handler\<close>

lemma api_reserve_single_free:
  assumes "s_ipad_id body = Some i" and "i \<noteq> 0"
    and "s_fecha body = Some f" and "f \<noteq> []"
    and "s_bloque_horario body = Some b" and "b \<noteq> []"
    and "\<not> falsy (s_docente body)"
    and "getUTCDay f \<noteq> Some 0" and "getUTCDay f \<noteq> Some 6"
    and "(i, f, b) \<notin> set (map slot (reservations s))"
  shows "fst (api_reserve_single body s) = Success \<and>
         (i, f, b) \<in> set (map slot (reservations (snd (api_reserve_single body s))))"
proof -
  from insertRes_free [OF assms(10)] obtain s' where
    s': "insertRes i f b (or_default (s_docente body) []) (or_default (s_curso body) []) s = Inr s'"
    by blast
  from assms(1-9) s' have "api_reserve_single body s = (Success, s')"
    by (simp add: api_reserve_single_def falsy_def or_default_def)
  with insertRes_Inr [OF s'] show ?thesis by simp
qed

lemma api_reserve_single_weekend:
  assumes "s_fecha body = Some f" and "getUTCDay f = Some 0 \<or> getUTCDay f = Some 6"
  shows "api_reserve_single body s = (ValidationError, s)"
  using assms by (auto simp: api_reserve_single_def or_default_def falsy_def)

lemma api_reserve_single_distinct:
  assumes "distinct (map slot (reservations s))"
  shows "distinct (map slot (reservations (snd (api_reserve_single body s))))"
proof (cases "fst (api_reserve_single body s) = Success")
  case True
  then obtain i f b d c where "insertRes i f b d c s = Inr (snd (api_reserve_single body s))"
    by (auto simp: api_reserve_single_def Let_def split: if_splits sum.splits sql_error.splits)
  from insertRes_distinct [OF this assms] show ?thesis .
next
  case False
  then have "snd (api_reserve_single body s) = s"
    by (auto simp: api_reserve_single_def Let_def split: if_splits sum.splits sql_error.splits)
  with assms show ?thesis by simp
qed

text \<open>
  C5, as the code has it. In the single-device variant (server.ts) a Reserve whose
  date, a day of the calendar sent as \<^verbatim>\<open>YYYY-MM-DD\<close>, is a Saturday or a Sunday is
  answered with ValidationError and the store is the one it found; a Reserve that
  succeeds has a date from Monday to Friday. The batch variant has no such check.
\<close>

theorem weekend_rejected_single_variant:
  assumes "valid_date d" and "s_fecha body = Some (iso_date d)"
  shows "(WeekDay d = 0 \<or> WeekDay d = 6 \<longrightarrow> api_reserve_single body s = (ValidationError, s)) \<and>
         (fst (api_reserve_single body s) = Success \<longrightarrow> 1 \<le> WeekDay d \<and> WeekDay d \<le> 5)"
proof -
  have g: "getUTCDay (iso_date d) = Some (WeekDay d)"
    using assms(1) by (rule getUTCDay_iso_date)
  have w: "WeekDay d = 0 \<or> WeekDay d = 6 \<Longrightarrow> api_reserve_single body s = (ValidationError, s)"
    using api_reserve_single_weekend [OF assms(2), of s] g by simp
  have "fst (api_reserve_single body s) = Success \<Longrightarrow> 1 \<le> WeekDay d \<and> WeekDay d \<le> 5"
  proof -
    assume ok: "fst (api_reserve_single body s) = Success"
    have "\<not> (WeekDay d = 0 \<or> WeekDay d = 6)"
    proof
      assume "WeekDay d = 0 \<or> WeekDay d = 6"
      from w [OF this] ok show False by simp
    qed
    with WeekDay_le [of d] show ?thesis by arith
  qed
  with w show ?thesis by blast
qed

theorem weekend_rejected_single_variant_witness:
  "valid_date ex_saturday \<and> WeekDay ex_saturday = 6 \<and>
   api_reserve_single ex_single_sat empty_db = (ValidationError, empty_db) \<and>
   valid_date ex_today \<and> fst (api_reserve_single (ex_single_mon 3) empty_db) = Success \<and>
   1 \<le> WeekDay ex_today \<and> WeekDay ex_today \<le> 5"
proof -
  have f1: "s_fecha ex_single_sat = Some (iso_date ex_saturday)"
    by (simp add: ex_single_sat_def)
  have f2: "s_fecha (ex_single_mon 3) = Some (iso_date ex_today)"
    by (simp add: ex_single_mon_def)
  have g: "getUTCDay (iso_date ex_today) = Some 1"
    using getUTCDay_iso_date [OF ex_dates_valid(3)] by (simp add: ex_dates_weekday)
  have ok: "fst (api_reserve_single (ex_single_mon 3) empty_db) = Success"
    using api_reserve_single_free
      [where body = "ex_single_mon 3" and i = 3 and f = "iso_date ex_today" and b = "''1st''"
         and s = empty_db]
    by (simp add: ex_single_mon_def g iso_date_nonempty falsy_def empty_db_def)
  from weekend_rejected_single_variant [OF ex_dates_valid(1) f1, of empty_db]
    weekend_rejected_single_variant [OF ex_dates_valid(3) f2, of empty_db]
    ok ex_dates_valid ex_dates_weekday
  show ?thesis by simp
qed

text \<open>
  C5 as written fails on the batch variant (part_000): it has no weekday check, and a
  batch for Saturday 2025-03-08, a date the guard of server.ts reads as day 6, succeeds.
\<close>

theorem batch_reserve_accepts_saturday:
  "getUTCDay (iso_date ex_saturday) = Some 6 \<and>
   fst (api_reserve ex_reserve_sat empty_db) = Success"
proof -
  have "getUTCDay (iso_date ex_saturday) = Some 6"
    using getUTCDay_iso_date [OF ex_dates_valid(1)] by (simp add: ex_dates_weekday)
  moreover have "fst (api_reserve ex_reserve_sat empty_db) = Success"
    by (rule api_reserve_free
          [where ids = "[3]" and f = "iso_date ex_saturday" and b = "''1st''"])
       (simp_all add: ex_reserve_sat_def empty_db_def falsy_def iso_date_nonempty)
  ultimately show ?thesis by simp
qed

text \<open>
  C10, as the code has it. No handler reads the table \<^verbatim>\<open>ipads\<close>. In the batch
  variant a Reserve naming a device id outside the pool, with date, block and
  requester present and the slot free, succeeds and leaves a row for that slot. In
  the single-device variant the same holds for an id other than 0 when the date is a
  day of the calendar from Monday to Friday, sent as \<^verbatim>\<open>YYYY-MM-DD\<close>.
\<close>

theorem reserve_ignores_pool:
  assumes "i \<notin> set (ipads s)" and "b \<noteq> []" and "d \<noteq> []"
  shows
    "(f \<noteq> [] \<and> (i, f, b) \<notin> set (map slot (reservations s)) \<longrightarrow>
        fst (api_reserve \<lparr>b_ipad_ids = Some [i], b_fecha = Some f,
               b_bloque_horario = Some b, b_docente = Some d, b_curso = c\<rparr> s) = Success \<and>
        (i, f, b) \<in> set (map slot (reservations (snd
           (api_reserve \<lparr>b_ipad_ids = Some [i], b_fecha = Some f,
               b_bloque_horario = Some b, b_docente = Some d, b_curso = c\<rparr> s))))) \<and>
     (i \<noteq> 0 \<and> valid_date dt \<and> WeekDay dt \<noteq> 0 \<and> WeekDay dt \<noteq> 6 \<and>
      (i, iso_date dt, b) \<notin> set (map slot (reservations s)) \<longrightarrow>
        fst (api_reserve_single \<lparr>s_ipad_id = Some i, s_fecha = Some (iso_date dt),
               s_bloque_horario = Some b, s_docente = Some d, s_curso = c\<rparr> s) = Success \<and>
        (i, iso_date dt, b) \<in> set (map slot (reservations (snd
           (api_reserve_single \<lparr>s_ipad_id = Some i, s_fecha = Some (iso_date dt),
               s_bloque_horario = Some b, s_docente = Some d, s_curso = c\<rparr> s)))))"
proof (intro conjI impI)
  let ?body = "\<lparr>b_ipad_ids = Some [i], b_fecha = Some f, b_bloque_horario = Some b,
            b_docente = Some d, b_curso = c\<rparr>"
  assume h: "f \<noteq> [] \<and> (i, f, b) \<notin> set (map slot (reservations s))"
  show ok: "fst (api_reserve ?body s) = Success"
    by (rule api_reserve_free [where ids = "[i]" and f = f and b = b])
       (use assms h in \<open>simp_all add: falsy_def\<close>)
  then have "api_reserve ?body s = (Success, snd (api_reserve ?body s))"
    by (simp add: prod_eq_iff)
  from api_reserve_Success [OF this]
  show "(i, f, b) \<in> set (map slot (reservations (snd (api_reserve ?body s))))"
    by auto
next
  let ?body1 = "\<lparr>s_ipad_id = Some i, s_fecha = Some (iso_date dt),
               s_bloque_horario = Some b, s_docente = Some d, s_curso = c\<rparr>"
  assume h: "i \<noteq> 0 \<and> valid_date dt \<and> WeekDay dt \<noteq> 0 \<and> WeekDay dt \<noteq> 6 \<and>
      (i, iso_date dt, b) \<notin> set (map slot (reservations s))"
  then have g: "getUTCDay (iso_date dt) = Some (WeekDay dt)"
    by (simp add: getUTCDay_iso_date)
  have both: "fst (api_reserve_single ?body1 s) = Success \<and>
      (i, iso_date dt, b) \<in> set (map slot (reservations (snd (api_reserve_single ?body1 s))))"
    by (rule api_reserve_single_free [where i = i and f = "iso_date dt" and b = b])
       (use assms h g in \<open>simp_all add: falsy_def iso_date_nonempty\<close>)
  from both show "fst (api_reserve_single ?body1 s) = Success" ..
  from both
  show "(i, iso_date dt, b) \<in> set (map slot (reservations (snd (api_reserve_single ?body1 s))))" ..
qed

theorem reserve_ignores_pool_witness:
  "999 \<notin> set (ipads empty_db) \<and> valid_date ex_today \<and> WeekDay ex_today = 1 \<and>
   fst (api_reserve ex_reserve999 empty_db) = Success \<and>
   (999, ''2025-03-10'', ''1st'') \<in>
      set (map slot (reservations (snd (api_reserve ex_reserve999 empty_db)))) \<and>
   fst (api_reserve_single (ex_single_mon 999) empty_db) = Success \<and>
   (999, iso_date ex_today, ''1st'') \<in>
      set (map slot (reservations (snd (api_reserve_single (ex_single_mon 999) empty_db))))"
proof -
  have p: "999 \<notin> set (ipads empty_db)"
    by (simp add: empty_db_def)
  have free: "(999, ''2025-03-10'', ''1st'') \<notin> set (map slot (reservations empty_db))"
    "(999, iso_date ex_today, ''1st'') \<notin> set (map slot (reservations empty_db))"
    by (simp_all add: empty_db_def)
  from reserve_ignores_pool
    [OF p, where b = "''1st''" and d = "''Ana''" and f = "''2025-03-10''" and dt = ex_today
       and c = None]
    free ex_dates_valid(3) ex_dates_weekday(3) p
  show ?thesis
    by (simp add: ex_reserve999_def ex_single_mon_def)
qed

text \<open>
  C10 as written fails on the single-device variant, which has the weekday guard: a
  Reserve naming the id 999, outside the pool, on a free slot of Saturday 2025-03-08
  is answered with ValidationError and leaves no row.
\<close>

theorem single_reserve_outside_pool_saturday:
  "999 \<notin> set (ipads empty_db) \<and>
   (999, iso_date ex_saturday, ''1st'') \<notin> set (map slot (reservations empty_db)) \<and>
   api_reserve_single ex_single_sat999 empty_db = (ValidationError, empty_db)"
proof -
  have g: "getUTCDay (iso_date ex_saturday) = Some 6"
    using getUTCDay_iso_date [OF ex_dates_valid(1)] by (simp add: ex_dates_weekday)
  have "api_reserve_single ex_single_sat999 empty_db = (ValidationError, empty_db)"
    by (rule api_reserve_single_weekend [where f = "iso_date ex_saturday"])
       (simp_all add: ex_single_sat999_def g)
  then show ?thesis by (simp add: empty_db_def)
qed

text \<open>The guard \<^verbatim>\<open>!ipad_id\<close> of this variant answers a request naming the number 0 as it
  answers one without an id.\<close>

lemma api_reserve_single_zero:
  "s_ipad_id body = Some 0 \<Longrightarrow> api_reserve_single body s = (ValidationError, s)"
  by (simp add: api_reserve_single_def)

section \<open>One row for each slot\<close>

lemma api_reserve_distinct:
  assumes "distinct (map slot (reservations s))"
  shows "distinct (map slot (reservations (snd (api_reserve body s))))"
proof (cases "fst (api_reserve body s) = Success")
  case True
  then have "api_reserve body s = (Success, snd (api_reserve body s))"
    by (simp add: prod_eq_iff)
  from api_reserve_Success [OF this] assms show ?thesis by blast
next
  case False
  with api_reserve_not_Success [OF False] assms show ?thesis by simp
qed

lemma api_return_distinct:
  assumes "distinct (map slot (reservations s))"
  shows "distinct (map slot (reservations (snd (api_return todayStr body s))))"
proof -
  from api_return_rows [of todayStr body s] obtain P where
    "reservations (snd (api_return todayStr body s)) = filter P (reservations s)"
    by blast
  with assms show ?thesis by (simp add: distinct_map_filter)
qed

lemma handle_distinct:
  "distinct (map slot (reservations s)) \<Longrightarrow>
     distinct (map slot (reservations (snd (handle r s))))"
  by (cases r) (simp_all add: api_reserve_distinct api_return_distinct)

lemma run_distinct:
  "distinct (map slot (reservations s)) \<Longrightarrow> distinct (map slot (reservations (run rs s)))"
proof (induction rs arbitrary: s)
  case Nil
  then show ?case by (simp add: run_def)
next
  case (Cons r rs)
  from Cons.IH [OF handle_distinct [OF Cons.prems, of r]] show ?case
    by (simp add: run_def)
qed

lemma run_single_distinct:
  "distinct (map slot (reservations s)) \<Longrightarrow>
     distinct (map slot (reservations (run_single bs s)))"
proof (induction bs arbitrary: s)
  case Nil
  then show ?case by (simp add: run_single_def)
next
  case (Cons b bs)
  from Cons.IH [OF api_reserve_single_distinct [OF Cons.prems, of b]] show ?case
    by (simp add: run_single_def)
qed

lemma distinct_filter_le_1:
  "distinct (map f xs) \<Longrightarrow> length (filter (\<lambda>x. f x = k) xs) \<le> 1"
proof (induction xs)
  case Nil
  then show ?case by simp
next
  case (Cons x xs)
  show ?case
  proof (cases "f x = k")
    case True
    with Cons.prems have "k \<notin> f ` set xs" by simp
    then have "\<forall>y\<in>set xs. f y \<noteq> k" by blast
    then have "filter (\<lambda>x. f x = k) xs = []" by (simp add: filter_empty_conv)
    with True show ?thesis by simp
  next
    case False
    with Cons show ?thesis by simp
  qed
qed

text \<open>
  The example sequence: the batch 3, 4, 5 succeeds, its repetition is refused, the
  return of device 7 finds nothing, device 999 is reserved. Slot 4 has its one row.
\<close>

lemma ex_requests_count:
  "active_count (4, ''2025-03-10'', ''1st'') (run ex_requests empty_db) = 1"
  "map fst [handle (Reserve ex_reserve345) empty_db,
            handle (Reserve ex_reserve345) (run [Reserve ex_reserve345] empty_db)] =
     [Success, Conflict]"
  by code_simp+

text \<open>
  C1. After any sequence of Reserve and Return requests served from the store of a
  fresh process, every slot has at most one row; the same holds for any sequence of
  requests to the single-device variant; and an insert for a slot that has a row
  fails with the unique-constraint error, which carries no store.
\<close>

theorem unique_active_reservation:
  "active_count k (run rs empty_db) \<le> 1 \<and>
   active_count k (run_single bs empty_db) \<le> 1 \<and>
   ((i, f, b) \<in> set (map slot (reservations s)) \<longrightarrow>
      insertRes i f b d c s = Inl SQLITE_CONSTRAINT_UNIQUE)"
proof -
  have e: "distinct (map slot (reservations empty_db))"
    by (simp add: empty_db_def)
  have "active_count k (run rs empty_db) \<le> 1"
    unfolding active_count_def by (rule distinct_filter_le_1) (rule run_distinct [OF e])
  moreover have "active_count k (run_single bs empty_db) \<le> 1"
    unfolding active_count_def by (rule distinct_filter_le_1) (rule run_single_distinct [OF e])
  ultimately show ?thesis by (simp add: insertRes_def)
qed

theorem unique_active_reservation_witness:
  "(4, ''2025-03-10'', ''1st'') \<in> set (map slot (reservations ex_db4)) \<and>
   insertRes 4 ''2025-03-10'' ''1st'' ''Ana'' [] ex_db4 = Inl SQLITE_CONSTRAINT_UNIQUE \<and>
   active_count (4, ''2025-03-10'', ''1st'') (run ex_requests empty_db) \<le> 1 \<and>
   active_count (3, ''2025-03-10'', ''1st'') (run_single ex_singles empty_db) \<le> 1"
proof -
  have m: "(4, ''2025-03-10'', ''1st'') \<in> set (map slot (reservations ex_db4))"
    by (simp add: ex_db4_def slot_def)
  from m unique_active_reservation
      [of "(4, ''2025-03-10'', ''1st'')" ex_requests ex_singles 4 "''2025-03-10''" "''1st''"
          ex_db4 "''Ana''" "[]"]
    unique_active_reservation
      [of "(3, ''2025-03-10'', ''1st'')" ex_requests ex_singles 4 "''2025-03-10''" "''1st''"
          ex_db4 "''Ana''" "[]"]
  show ?thesis by simp
qed

section \<open>Statistics\<close>

lemma limit1_no_rows: "limit1 (top_groups (group_counts key [])) = [None]"
  by (simp add: group_counts_def top_groups_def limit1_def)

lemma ex_db7_april: "month_rows iso_strftime (padStart2 ''4'') ''2025'' ex_db7 = []"
  by code_simp

text \<open>
  C8, as the code has it. For a month and year in which no row falls, the one response
  the handler can send has the text \<^verbatim>\<open>N/A\<close> for the most-used device, the day of
  highest demand and the most-reserved block, and the number 0 for the total.
\<close>

theorem stats_no_data:
  assumes "month_rows sf (padStart2 month_q) year_q s = []"
  shows "api_stats sf month_q year_q s =
     [\<lparr>totalReservas = JNum 0, ipadMasUsado = JStr ''N/A'', diaMasDemanda = JStr ''N/A'',
       bloqueMasReservado = JStr ''N/A''\<rparr>]"
proof -
  have "api_stats sf month_q year_q s = [stats_json 0 None None None]"
    unfolding api_stats_def Let_def assms by (simp add: limit1_no_rows)
  then show ?thesis by (simp add: stats_json_def)
qed

theorem stats_no_data_witness:
  "month_rows iso_strftime (padStart2 ''4'') ''2025'' ex_db7 = [] \<and>
   api_stats iso_strftime ''4'' ''2025'' ex_db7 =
     [\<lparr>totalReservas = JNum 0, ipadMasUsado = JStr ''N/A'', diaMasDemanda = JStr ''N/A'',
       bloqueMasReservado = JStr ''N/A''\<rparr>]"
  using stats_no_data [OF ex_db7_april] ex_db7_april by simp

text \<open>
  C8 as written fails on the total: for a month without rows it is the number 0, not
  the text \<^verbatim>\<open>N/A\<close>.
\<close>

theorem stats_no_data_total_is_zero:
  "month_rows iso_strftime (padStart2 ''4'') ''2025'' ex_db7 = [] \<and>
   map totalReservas (api_stats iso_strftime ''4'' ''2025'' ex_db7) = [JNum 0] \<and>
   JNum 0 \<noteq> JStr ''N/A''"
proof -
  have "api_stats iso_strftime ''4'' ''2025'' ex_db7 = [stats_json 0 None None None]"
    unfolding api_stats_def Let_def ex_db7_april by (simp add: limit1_no_rows)
  with ex_db7_april show ?thesis by (simp add: stats_json_def)
qed

end
